theory Spec2Isabelle
  imports Complex_Main "HOL-Library.AList"
begin

section \<open>Identifier normalization\<close>

text \<open>
  Both sync handlers of \<^verbatim>\<open>server-sqlite.js\<close> start with
  \<^verbatim>\<open>req.params.userId.toLowerCase().replace(/[^a-z0-9_-]/g, '')\<close>.
  A string is a list of code units; the model covers the code units below 256, on which
  \<^verbatim>\<open>toLowerCase\<close> maps \<open>A\<close>..\<open>Z\<close> and the capital letters of the
  Latin-1 block (192..222 without the multiplication sign 215) to the code unit 32 above
  and leaves every other code unit alone.
\<close>

definition toLowerCase_char :: "char \<Rightarrow> char" where
  "toLowerCase_char c =
     (let n = (of_char c :: nat)
      in if (65 \<le> n \<and> n \<le> 90) \<or> (192 \<le> n \<and> n \<le> 222 \<and> n \<noteq> 215)
         then char_of (n + 32) else c)"

definition toLowerCase :: "string \<Rightarrow> string" where
  "toLowerCase s = map toLowerCase_char s"

text \<open>The characters that the class \<^verbatim>\<open>[^a-z0-9_-]\<close> does not match.\<close>

definition allowed :: "char \<Rightarrow> bool" where
  "allowed c =
     (let n = (of_char c :: nat)
      in (97 \<le> n \<and> n \<le> 122) \<or> (48 \<le> n \<and> n \<le> 57) \<or> n = 95 \<or> n = 45)"

definition normalizeUserId :: "string \<Rightarrow> string" where
  "normalizeUserId raw = filter allowed (toLowerCase raw)"

text \<open>The guard \<^verbatim>\<open>!userId || userId.length < 3 || userId.length > 30\<close>.\<close>

definition invalid_id :: "string \<Rightarrow> bool" where
  "invalid_id userId = (userId = [] \<or> length userId < 3 \<or> length userId > 30)"

section \<open>JSON values and the services of the JavaScript runtime\<close>

text \<open>
  The values that \<^verbatim>\<open>express.json()\<close> puts into \<^verbatim>\<open>req.body\<close> and that
  \<^verbatim>\<open>res.json\<close> sends. A number is a finite value or one of the two infinities, which
  \<^verbatim>\<open>JSON.parse\<close> returns for a literal beyond the range of a double such as
  \<^verbatim>\<open>1e400\<close>; it never returns NaN, and both zeros are \<open>Finite 0\<close>.
\<close>

datatype jsnumber = Finite rat | PosInfinity | NegInfinity

datatype json =
    JNull
  | JBool bool
  | JNum jsnumber
  | JStr string
  | JArr "json list"
  | JObj "(string \<times> json) list"

text \<open>
  JavaScript's truthiness, which the conditional operators of both handlers test:
  \<^verbatim>\<open>null\<close>, \<^verbatim>\<open>false\<close>, \<^verbatim>\<open>0\<close> and \<^verbatim>\<open>""\<close> are falsy, every other value
  (the infinities, every array and object) is truthy.
\<close>

fun truthy :: "json \<Rightarrow> bool" where
  "truthy JNull = False"
| "truthy (JBool b) = b"
| "truthy (JNum n) = (n \<noteq> Finite 0)"
| "truthy (JStr s) = (s \<noteq> [])"
| "truthy (JArr xs) = True"
| "truthy (JObj kvs) = True"

text \<open>
  The built-ins that the handlers call are parameters of the model:
  \<^verbatim>\<open>JSON.stringify\<close> (\<open>None\<close> when it throws, as it does with a RangeError on a
  value nested too deeply for its recursion), \<^verbatim>\<open>JSON.parse\<close> (\<open>None\<close> when it throws
  a SyntaxError) and \<^verbatim>\<open>Date.prototype.toISOString\<close>, applied to the clock reading of
  \<^verbatim>\<open>new Date()\<close> in milliseconds since the epoch.
\<close>

record runtime =
  JSON_stringify :: "json \<Rightarrow> string option"
  JSON_parse :: "string \<Rightarrow> json option"
  toISOString :: "nat \<Rightarrow> string"

section \<open>The users table\<close>

text \<open>
  \<^verbatim>\<open>CREATE TABLE users (user_id TEXT PRIMARY KEY, paris_data TEXT, london_data TEXT,
  updated_at TEXT)\<close>: the three data columns are nullable.
\<close>

record row =
  paris_data :: "string option"
  london_data :: "string option"
  updated_at :: "string option"

type_synonym db = "(string \<times> row) list"

text \<open>
  What the driver does with the one query of a request: \<open>None\<close> when \<^verbatim>\<open>prepare\<close> and
  \<^verbatim>\<open>get\<close> return, \<open>Some msg\<close> when one of them throws an error whose \<^verbatim>\<open>message\<close>
  is \<open>msg\<close>.
\<close>

type_synonym fault = "string option"

text \<open>
  What the driver does with the one write of a request: \<open>Runs\<close> when \<^verbatim>\<open>prepare\<close> and
  \<^verbatim>\<open>run\<close> return, and \<open>Throws msg d'\<close> when one of them throws an error whose
  \<^verbatim>\<open>message\<close> is \<open>msg\<close>, the driver leaving the table \<open>d'\<close> behind.
\<close>

datatype run_result = Runs | Throws string db

text \<open>\<^verbatim>\<open>SELECT * FROM users WHERE user_id = ?\<close>\<close>

definition select_user :: "db \<Rightarrow> string \<Rightarrow> row option" where
  "select_user d userId = map_of d userId"

text \<open>\<^verbatim>\<open>INSERT INTO users ... ON CONFLICT(user_id) DO UPDATE SET ...\<close>\<close>

definition upsert_user :: "string \<Rightarrow> row \<Rightarrow> db \<Rightarrow> db" where
  "upsert_user userId r d = AList.update userId r d"

text \<open>\<^verbatim>\<open>SELECT COUNT(*) as count FROM users\<close>\<close>

definition count_users :: "db \<Rightarrow> nat" where
  "count_users d = length d"

section \<open>The request handlers\<close>

text \<open>
  The own properties of \<^verbatim>\<open>req.body\<close> when it is an object; the handler is given
  \<open>None\<close> for the body when \<^verbatim>\<open>req.body\<close> is \<^verbatim>\<open>undefined\<close>.
\<close>

type_synonym body = "string \<rightharpoonup> json"

type_synonym response = "nat \<times> json"

definition error_body :: "string \<Rightarrow> json" where
  "error_body msg = JObj [(''error'', JStr msg)]"

text \<open>\<^verbatim>\<open>row.paris_data ? JSON.parse(row.paris_data) : null\<close>; \<open>None\<close> when the parse throws.\<close>

definition parse_column :: "runtime \<Rightarrow> string option \<Rightarrow> json option" where
  "parse_column rt col =
     (case col of
        None \<Rightarrow> Some JNull
      | Some s \<Rightarrow> if s = [] then Some JNull else JSON_parse rt s)"

text \<open>
  \<^verbatim>\<open>req.body.paris ? JSON.stringify(req.body.paris) : null\<close>; an omitted field is
  \<open>None\<close>. The result is \<open>None\<close> when \<^verbatim>\<open>JSON.stringify\<close> throws, \<open>Some None\<close> for
  null and \<open>Some (Some s)\<close> for the text \<open>s\<close>.
\<close>

definition stringify_field :: "runtime \<Rightarrow> json option \<Rightarrow> string option option" where
  "stringify_field rt f =
     (case f of
        None \<Rightarrow> Some None
      | Some v \<Rightarrow>
          if truthy v then (case JSON_stringify rt v of None \<Rightarrow> None | Some s \<Rightarrow> Some (Some s))
          else Some None)"

definition nullable :: "string option \<Rightarrow> json" where
  "nullable col = (case col of None \<Rightarrow> JNull | Some s \<Rightarrow> JStr s)"

text \<open>\<^verbatim>\<open>app.get('/api/sync/:userId', ...)\<close>\<close>

definition get_handler :: "runtime \<Rightarrow> db \<Rightarrow> fault \<Rightarrow> string \<Rightarrow> response" where
  "get_handler rt d flt raw =
     (let userId = normalizeUserId raw in
      if invalid_id userId then (400, error_body ''Invalid user ID'')
      else
        (case flt of
           Some e \<Rightarrow> (500, error_body ''Database error'')
         | None \<Rightarrow>
            (case select_user d userId of
               Some r \<Rightarrow>
                 (case parse_column rt (paris_data r) of
                    None \<Rightarrow> (500, error_body ''Database error'')
                  | Some p \<Rightarrow>
                     (case parse_column rt (london_data r) of
                        None \<Rightarrow> (500, error_body ''Database error'')
                      | Some l \<Rightarrow>
                          (200, JObj [(''success'', JBool True),
                                      (''data'', JObj [(''paris'', p), (''london'', l),
                                         (''updatedAt'', nullable (updated_at r))])])))
             | None \<Rightarrow> (200, JObj [(''success'', JBool True), (''data'', JNull)]))))"

text \<open>
  \<^verbatim>\<open>app.post('/api/sync/:userId', ...)\<close>; \<open>now\<close> is the clock reading of line 111.
  Lines 112 and 113 stand before the \<^verbatim>\<open>try\<close>: when reading a field of an undefined
  body or serializing a field throws there, no statement is issued and the error handler
  of lines 156 to 159 answers. When the driver throws inside the \<^verbatim>\<open>try\<close>, the handler
  writes nothing more and the table is the one the driver left.
\<close>

definition post_handler ::
  "runtime \<Rightarrow> db \<Rightarrow> run_result \<Rightarrow> nat \<Rightarrow> string \<Rightarrow> body option \<Rightarrow> response \<times> db" where
  "post_handler rt d res now raw body =
     (let userId = normalizeUserId raw in
      if invalid_id userId then ((400, error_body ''Invalid user ID''), d)
      else
        (let updatedAt = toISOString rt now in
         case body of
           None \<Rightarrow> ((500, error_body ''Internal server error''), d)
         | Some b \<Rightarrow>
            (case stringify_field rt (b ''paris'') of
               None \<Rightarrow> ((500, error_body ''Internal server error''), d)
             | Some parisData \<Rightarrow>
                (case stringify_field rt (b ''london'') of
                   None \<Rightarrow> ((500, error_body ''Internal server error''), d)
                 | Some londonData \<Rightarrow>
                    (case res of
                       Runs \<Rightarrow>
                         ((200, JObj [(''success'', JBool True),
                                      (''updatedAt'', JStr updatedAt)]),
                          upsert_user userId
                            \<lparr>paris_data = parisData, london_data = londonData,
                             updated_at = Some updatedAt\<rparr> d)
                     | Throws e d' \<Rightarrow> ((500, error_body ''Failed to save data''), d'))))))"

text \<open>\<^verbatim>\<open>app.get('/api/admin/stats', ...)\<close>\<close>

definition stats_handler :: "db \<Rightarrow> fault \<Rightarrow> response" where
  "stats_handler d flt =
     (case flt of
        None \<Rightarrow> (200, JObj [(''userCount'', JNum (Finite (of_nat (count_users d))))])
      | Some e \<Rightarrow> (500, error_body e))"

section \<open>Sequences of requests\<close>

text \<open>
  The server handles one request at a time. In a sequence of requests the driver is
  SQLite, which rolls a failing statement back: the table that a throwing write leaves
  behind is the table it found.
\<close>

datatype request =
    GetSync string
  | PostSync string "body option" nat
  | GetStats

fun serve :: "runtime \<Rightarrow> db \<Rightarrow> request \<times> fault \<Rightarrow> response \<times> db" where
  "serve rt d (GetSync raw, flt) = (get_handler rt d flt raw, d)"
| "serve rt d (PostSync raw body now, flt) =
     post_handler rt d (case flt of None \<Rightarrow> Runs | Some e \<Rightarrow> Throws e d) now raw body"
| "serve rt d (GetStats, flt) = (stats_handler d flt, d)"

fun run :: "runtime \<Rightarrow> db \<Rightarrow> (request \<times> fault) list \<Rightarrow> db" where
  "run rt d [] = d"
| "run rt d (ev # evs) = run rt (snd (serve rt d ev)) evs"

text \<open>
  The identifiers of the POST requests of a sequence that were answered with status 200,
  in the order of the requests.
\<close>

fun succeeded_ids :: "runtime \<Rightarrow> db \<Rightarrow> (request \<times> fault) list \<Rightarrow> string list" where
  "succeeded_ids rt d [] = []"
| "succeeded_ids rt d (ev # evs) =
     (case ev of
        (PostSync raw body now, flt) \<Rightarrow>
          if fst (fst (serve rt d ev)) = 200 then [normalizeUserId raw] else []
      | _ \<Rightarrow> [])
     @ succeeded_ids rt (snd (serve rt d ev)) evs"

text \<open>The values that the POST requests of a sequence carry in \<^verbatim>\<open>paris\<close> and \<^verbatim>\<open>london\<close>.\<close>

definition body_values :: "body option \<Rightarrow> json list" where
  "body_values body =
     (case body of
        None \<Rightarrow> []
      | Some b \<Rightarrow>
          (case b ''paris'' of None \<Rightarrow> [] | Some v \<Rightarrow> [v])
          @ (case b ''london'' of None \<Rightarrow> [] | Some v \<Rightarrow> [v]))"

fun submitted_values :: "(request \<times> fault) list \<Rightarrow> json list" where
  "submitted_values [] = []"
| "submitted_values (ev # evs) =
     (case ev of (PostSync raw body now, flt) \<Rightarrow> body_values body | _ \<Rightarrow> [])
     @ submitted_values evs"

text \<open>
  A column is null or holds the serialization of one of the truthy values of a list.
\<close>

definition serialized_from :: "runtime \<Rightarrow> json list \<Rightarrow> string option \<Rightarrow> bool" where
  "serialized_from rt vs col =
     (case col of
        None \<Rightarrow> True
      | Some s \<Rightarrow> Some s \<in> JSON_stringify rt ` {v \<in> set vs. truthy v})"

definition rows_serialized_from :: "runtime \<Rightarrow> json list \<Rightarrow> db \<Rightarrow> bool" where
  "rows_serialized_from rt vs d =
     (\<forall>(k, r) \<in> set d.
        serialized_from rt vs (paris_data r) \<and> serialized_from rt vs (london_data r))"

section \<open>A runtime for worked examples\<close>

text \<open>
  A small instance of the runtime, giving the built-ins' results on the values of the
  worked examples: \<^verbatim>\<open>{"day1":"louvre"}\<close>, \<^verbatim>\<open>["soho"]\<close>, the infinity, which
  \<^verbatim>\<open>JSON.stringify\<close> renders as \<^verbatim>\<open>null\<close>, and two clock readings.
\<close>

definition example_runtime :: runtime where
  \<open>example_runtime =
     \<lparr>JSON_stringify = (\<lambda>v.
        if v = JObj [(''day1'', JStr ''louvre'')] then Some ''{"day1":"louvre"}''
        else if v = JArr [JStr ''soho''] then Some ''["soho"]''
        else Some ''null''),
      JSON_parse = (\<lambda>s.
        if s = ''{"day1":"louvre"}'' then Some (JObj [(''day1'', JStr ''louvre'')])
        else if s = ''["soho"]'' then Some (JArr [JStr ''soho''])
        else if s = ''null'' then Some JNull
        else None),
      toISOString = (\<lambda>t.
        if t = 0 then ''1970-01-01T00:00:00.000Z''
        else if t = 1748779200000 then ''2025-06-01T12:00:00.000Z''
        else [])\<rparr>\<close>

section \<open>Normalization is idempotent\<close>

lemma toLowerCase_char_allowed: "allowed c \<Longrightarrow> toLowerCase_char c = c"
  by (auto simp: allowed_def toLowerCase_char_def Let_def)

lemma toLowerCase_allowed: "\<forall>c \<in> set s. allowed c \<Longrightarrow> toLowerCase s = s"
  by (induction s) (simp_all add: toLowerCase_def toLowerCase_char_allowed)

lemma normalize_allowed: "\<forall>c \<in> set (normalizeUserId s). allowed c"
  by (simp add: normalizeUserId_def)

text \<open>
  C3. Normalizing an already normalized identifier gives the same string, and
  \<^verbatim>\<open>"Paris_123!"\<close> normalizes to \<^verbatim>\<open>"paris_123"\<close>.
\<close>

theorem normalize_idempotent:
  "normalizeUserId (normalizeUserId s) = normalizeUserId s \<and> normalizeUserId ''Paris_123!'' = ''paris_123''"
proof
  have "toLowerCase (normalizeUserId s) = normalizeUserId s"
    by (rule toLowerCase_allowed) (rule normalize_allowed)
  then show "normalizeUserId (normalizeUserId s) = normalizeUserId s"
    by (simp add: normalizeUserId_def)
  show "normalizeUserId ''Paris_123!'' = ''paris_123''"
    by code_simp
qed

section \<open>Facts about the table\<close>

lemma select_upsert_same: "select_user (upsert_user k r d) k = Some r"
  by (simp add: select_user_def upsert_user_def update_conv')




section \<open>Rejected identifiers\<close>

text \<open>
  C2. When the normalized identifier is shorter than 3 or longer than 30 characters, both
  sync handlers answer 400 whatever the table holds, whatever the body is and whatever the
  driver would do, the POST handler returns the table as it was, and so a later GET for any
  key answers as it would have before the rejected request.
\<close>

theorem invalid_id_rejected:
  assumes "length (normalizeUserId raw) < 3 \<or> length (normalizeUserId raw) > 30"
  shows "get_handler rt d flt raw = (400, error_body ''Invalid user ID'')
       \<and> post_handler rt d res now raw body = ((400, error_body ''Invalid user ID''), d)
       \<and> get_handler rt (snd (post_handler rt d res now raw body)) flt' raw'
           = get_handler rt d flt' raw'"
  using assms by (auto simp: get_handler_def post_handler_def invalid_id_def Let_def)

theorem invalid_id_rejected_witness:
  "length (normalizeUserId ''A!'') < 3
   \<and> get_handler example_runtime [] None ''A!'' = (400, error_body ''Invalid user ID'')
   \<and> post_handler example_runtime [] Runs 0 ''A!'' (Some [''paris'' \<mapsto> JArr [JStr ''soho'']])
        = ((400, error_body ''Invalid user ID''), [])
   \<and> get_handler example_runtime
        (snd (post_handler example_runtime [] Runs 0 ''A!''
               (Some [''paris'' \<mapsto> JArr [JStr ''soho'']])))
        None ''alice''
      = get_handler example_runtime [] None ''alice''"
proof -
  have h: "length (normalizeUserId ''A!'') < 3" by code_simp
  from h invalid_id_rejected [of "''A!''" example_runtime "[]" None Runs 0
      "Some [''paris'' \<mapsto> JArr [JStr ''soho'']]" None "''alice''"]
  show ?thesis by blast
qed

section \<open>A write replaces both JSON columns\<close>

text \<open>
  C4. After an accepted POST for a valid identifier (both fields are serialized without a
  throw and the driver runs the statement) the row of that identifier holds exactly the
  serialized fields of this request and its timestamp, whatever the table held before:
  nothing of the earlier row survives. When \<^verbatim>\<open>paris\<close> is omitted the column is null
  and a following GET returns \<^verbatim>\<open>paris: null\<close>; the same holds for \<^verbatim>\<open>london\<close>.
\<close>

theorem put_overwrites:
  assumes "\<not> invalid_id (normalizeUserId raw)"
    and "stringify_field rt (b ''paris'') = Some p"
    and "stringify_field rt (b ''london'') = Some l"
  shows "select_user (snd (post_handler rt d Runs now raw (Some b))) (normalizeUserId raw)
           = Some \<lparr>paris_data = p, london_data = l, updated_at = Some (toISOString rt now)\<rparr>
       \<and> (b ''paris'' = None \<longrightarrow> p = None \<and>
            (\<forall>lv. parse_column rt l = Some lv \<longrightarrow>
              get_handler rt (snd (post_handler rt d Runs now raw (Some b))) None raw
                = (200, JObj [(''success'', JBool True),
                     (''data'', JObj [(''paris'', JNull), (''london'', lv),
                        (''updatedAt'', JStr (toISOString rt now))])])))
       \<and> (b ''london'' = None \<longrightarrow> l = None \<and>
            (\<forall>pv. parse_column rt p = Some pv \<longrightarrow>
              get_handler rt (snd (post_handler rt d Runs now raw (Some b))) None raw
                = (200, JObj [(''success'', JBool True),
                     (''data'', JObj [(''paris'', pv), (''london'', JNull),
                        (''updatedAt'', JStr (toISOString rt now))])])))"
proof -
  have t: "snd (post_handler rt d Runs now raw (Some b))
             = upsert_user (normalizeUserId raw)
                 \<lparr>paris_data = p, london_data = l, updated_at = Some (toISOString rt now)\<rparr> d"
    using assms by (simp add: post_handler_def Let_def)
  have n: "b k = None \<Longrightarrow> stringify_field rt (b k) = Some None" for k
    by (simp add: stringify_field_def)
  show ?thesis
    using assms n [of "''paris''"] n [of "''london''"]
    by (auto simp: t select_upsert_same get_handler_def Let_def parse_column_def nullable_def)
qed


theorem put_overwrites_witness:
  \<open>\<not> invalid_id (normalizeUserId ''alice'')
   \<and> stringify_field example_runtime ([''london'' \<mapsto> JObj [(''day1'', JStr ''louvre'')]] ''paris'')
       = Some None
   \<and> stringify_field example_runtime ([''london'' \<mapsto> JObj [(''day1'', JStr ''louvre'')]] ''london'')
       = Some (Some ''{"day1":"louvre"}'')
   \<and> select_user
        (snd (post_handler example_runtime
           [(''alice'', \<lparr>paris_data = Some ''["soho"]'', london_data = None,
                         updated_at = Some ''1970-01-01T00:00:00.000Z''\<rparr>)]
           Runs 1748779200000 ''alice''
           (Some [''london'' \<mapsto> JObj [(''day1'', JStr ''louvre'')]])))
        ''alice''
      = Some \<lparr>paris_data = None, london_data = Some ''{"day1":"louvre"}'',
               updated_at = Some ''2025-06-01T12:00:00.000Z''\<rparr>
   \<and> get_handler example_runtime
        (snd (post_handler example_runtime
           [(''alice'', \<lparr>paris_data = Some ''["soho"]'', london_data = None,
                         updated_at = Some ''1970-01-01T00:00:00.000Z''\<rparr>)]
           Runs 1748779200000 ''alice''
           (Some [''london'' \<mapsto> JObj [(''day1'', JStr ''louvre'')]])))
        None ''alice''
      = (200, JObj [(''success'', JBool True),
           (''data'', JObj [(''paris'', JNull), (''london'', JObj [(''day1'', JStr ''louvre'')]),
              (''updatedAt'', JStr ''2025-06-01T12:00:00.000Z'')])])\<close>
proof -
  let ?b = "[''london'' \<mapsto> JObj [(''day1'', JStr ''louvre'')]]"
  let ?d = "[(''alice'', \<lparr>paris_data = Some ''[\"soho\"]'', london_data = None,
                         updated_at = Some ''1970-01-01T00:00:00.000Z''\<rparr>)]"
  have v: "\<not> invalid_id (normalizeUserId ''alice'')" by code_simp
  have a: "normalizeUserId ''alice'' = ''alice''" by code_simp
  have p: "stringify_field example_runtime (?b ''paris'') = Some None"
    by (simp add: stringify_field_def)
  have l: "stringify_field example_runtime (?b ''london'') = Some (Some ''{\"day1\":\"louvre\"}'')"
    by (simp add: stringify_field_def example_runtime_def)
  have o: "?b ''paris'' = None" by simp
  have q: "parse_column example_runtime (Some ''{\"day1\":\"louvre\"}'')
             = Some (JObj [(''day1'', JStr ''louvre'')])"
    by (simp add: parse_column_def example_runtime_def)
  have t: "toISOString example_runtime 1748779200000 = ''2025-06-01T12:00:00.000Z''"
    by (simp add: example_runtime_def)
  from put_overwrites [OF v p l, of ?d 1748779200000] o q
  have "select_user (snd (post_handler example_runtime ?d Runs 1748779200000 ''alice'' (Some ?b)))
          (normalizeUserId ''alice'')
         = Some \<lparr>paris_data = None, london_data = Some ''{\"day1\":\"louvre\"}'',
                  updated_at = Some (toISOString example_runtime 1748779200000)\<rparr>
       \<and> get_handler example_runtime
            (snd (post_handler example_runtime ?d Runs 1748779200000 ''alice'' (Some ?b)))
            None ''alice''
         = (200, JObj [(''success'', JBool True),
              (''data'', JObj [(''paris'', JNull), (''london'', JObj [(''day1'', JStr ''louvre'')]),
                 (''updatedAt'', JStr (toISOString example_runtime 1748779200000))])])"
    by blast
  with v p l show ?thesis unfolding a t by blast
qed

section \<open>The timestamp of a write\<close>

text \<open>
  C7. The POST handler never looks at any field of the body other than \<^verbatim>\<open>paris\<close> and
  \<^verbatim>\<open>london\<close>: two bodies that agree on these two fields, whatever else they hold (an
  \<^verbatim>\<open>updatedAt\<close> field, say), give the same response and the same table. On every
  write answered with success the returned \<^verbatim>\<open>updatedAt\<close> is the rendering of the
  server's clock reading, and it is the value stored in the \<^verbatim>\<open>updated_at\<close> column of
  that identifier.
\<close>

theorem updatedAt_server_side:
  assumes "b ''paris'' = b' ''paris''" and "b ''london'' = b' ''london''"
  shows "post_handler rt d res now raw (Some b) = post_handler rt d res now raw (Some b')
       \<and> (fst (fst (post_handler rt d res now raw (Some b))) = 200 \<longrightarrow>
            fst (post_handler rt d res now raw (Some b))
              = (200, JObj [(''success'', JBool True), (''updatedAt'', JStr (toISOString rt now))])
          \<and> map_option updated_at
              (select_user (snd (post_handler rt d res now raw (Some b))) (normalizeUserId raw))
              = Some (Some (toISOString rt now)))"
  using assms
  by (auto simp: post_handler_def Let_def select_upsert_same error_body_def
      split: option.splits run_result.splits)

theorem updatedAt_server_side_witness:
  "post_handler example_runtime [] Runs 0 ''alice''
      (Some [''paris'' \<mapsto> JArr [JStr ''soho''],
             ''updatedAt'' \<mapsto> JStr ''2099-01-01T00:00:00.000Z''])
     = post_handler example_runtime [] Runs 0 ''alice'' (Some [''paris'' \<mapsto> JArr [JStr ''soho'']])
   \<and> fst (post_handler example_runtime [] Runs 0 ''alice''
           (Some [''paris'' \<mapsto> JArr [JStr ''soho''],
                  ''updatedAt'' \<mapsto> JStr ''2099-01-01T00:00:00.000Z'']))
       = (200, JObj [(''success'', JBool True),
                     (''updatedAt'', JStr ''1970-01-01T00:00:00.000Z'')])
   \<and> map_option updated_at
        (select_user
           (snd (post_handler example_runtime [] Runs 0 ''alice''
              (Some [''paris'' \<mapsto> JArr [JStr ''soho''],
                     ''updatedAt'' \<mapsto> JStr ''2099-01-01T00:00:00.000Z''])))
           ''alice'')
       = Some (Some ''1970-01-01T00:00:00.000Z'')"
proof -
  let ?b = "[''paris'' \<mapsto> JArr [JStr ''soho''],
             ''updatedAt'' \<mapsto> JStr ''2099-01-01T00:00:00.000Z'']"
  let ?b' = "[''paris'' \<mapsto> JArr [JStr ''soho'']]"
  have p: "?b ''paris'' = ?b' ''paris''" by simp
  have l: "?b ''london'' = ?b' ''london''" by simp
  have a: "normalizeUserId ''alice'' = ''alice''" by code_simp
  have t: "toISOString example_runtime 0 = ''1970-01-01T00:00:00.000Z''"
    by (simp add: example_runtime_def)
  have s: "fst (fst (post_handler example_runtime [] Runs 0 ''alice'' (Some ?b))) = 200"
    by (simp add: post_handler_def a invalid_id_def stringify_field_def example_runtime_def
        Let_def)
  from updatedAt_server_side [OF p l, of example_runtime "[]" Runs 0 "''alice''"] s
  show ?thesis unfolding a t by blast
qed

section \<open>What a client sees of a driver error\<close>

text \<open>
  C5. The statistics handler answers a driver error with the driver's own message, where
  the two sync handlers answer with a fixed text.
\<close>

theorem stats_leaks_driver_message:
  "stats_handler [] (Some ''database disk image is malformed'')
     = (500, JObj [(''error'', JStr ''database disk image is malformed'')])
   \<and> get_handler example_runtime [] (Some ''database disk image is malformed'') ''alice''
     = (500, JObj [(''error'', JStr ''Database error'')])
   \<and> fst (post_handler example_runtime [] (Throws ''database disk image is malformed'' []) 0
          ''alice'' (Some Map.empty))
     = (500, JObj [(''error'', JStr ''Failed to save data'')])"
proof -
  have a: "normalizeUserId ''alice'' = ''alice''" by code_simp
  show ?thesis
    by (simp add: stats_handler_def get_handler_def post_handler_def error_body_def a
        invalid_id_def stringify_field_def Let_def)
qed

section \<open>Reading a record\<close>




section \<open>A write is all or nothing\<close>





section \<open>A write followed by a read\<close>

text \<open>
  For a valid identifier, a POST that the driver accepts followed by a GET for an
  identifier with the same normalized form returns, for each of \<^verbatim>\<open>paris\<close> and
  \<^verbatim>\<open>london\<close>, the submitted value when it is truthy and the runtime's \<^verbatim>\<open>JSON.parse\<close>
  inverts \<^verbatim>\<open>JSON.stringify\<close> on it, and null when the field is omitted or falsy; the
  \<^verbatim>\<open>updatedAt\<close> returned is the rendering of the clock reading that the POST handler
  took.
\<close>

lemma put_then_get_truthy:
  assumes "\<not> invalid_id (normalizeUserId raw)"
    and "normalizeUserId raw' = normalizeUserId raw"
    and "\<forall>v. (b ''paris'' = Some v \<or> b ''london'' = Some v) \<and> truthy v \<longrightarrow>
           (\<exists>s. JSON_stringify rt v = Some s \<and> s \<noteq> [] \<and> JSON_parse rt s = Some v)"
  shows "get_handler rt (snd (post_handler rt d Runs now raw (Some b))) None raw'
           = (200, JObj [(''success'', JBool True),
                (''data'', JObj
                   [(''paris'', case b ''paris'' of None \<Rightarrow> JNull
                                 | Some v \<Rightarrow> if truthy v then v else JNull),
                    (''london'', case b ''london'' of None \<Rightarrow> JNull
                                 | Some v \<Rightarrow> if truthy v then v else JNull),
                    (''updatedAt'', JStr (toISOString rt now))])])"
proof -
  have c: "\<exists>col. stringify_field rt (b k) = Some col
             \<and> parse_column rt col
                 = Some (case b k of None \<Rightarrow> JNull | Some v \<Rightarrow> if truthy v then v else JNull)"
    if "k = ''paris'' \<or> k = ''london''" for k
    using that assms(3)
    by (cases "b k") (auto simp: parse_column_def stringify_field_def)
  from c [of "''paris''"] obtain p where p: "stringify_field rt (b ''paris'') = Some p"
    "parse_column rt p
       = Some (case b ''paris'' of None \<Rightarrow> JNull | Some v \<Rightarrow> if truthy v then v else JNull)"
    by auto
  from c [of "''london''"] obtain l where l: "stringify_field rt (b ''london'') = Some l"
    "parse_column rt l
       = Some (case b ''london'' of None \<Rightarrow> JNull | Some v \<Rightarrow> if truthy v then v else JNull)"
    by auto
  show ?thesis
    using assms(1,2) p l
    by (simp add: get_handler_def post_handler_def Let_def select_upsert_same nullable_def)
qed

text \<open>
  C1. A write followed by a read does not return every submitted value: the presence
  test \<^verbatim>\<open>req.body.paris ? ... : null\<close> is a truthiness test, so \<^verbatim>\<open>paris: false\<close> is
  stored as null and read back as null, where the claim requires \<^verbatim>\<open>false\<close>.
\<close>

theorem put_then_get_loses_false:
  "get_handler example_runtime
     (snd (post_handler example_runtime [] Runs 0 ''alice'' (Some [''paris'' \<mapsto> JBool False])))
     None ''alice''
    = (200, JObj [(''success'', JBool True),
         (''data'', JObj [(''paris'', JNull), (''london'', JNull),
            (''updatedAt'', JStr ''1970-01-01T00:00:00.000Z'')])])
   \<and> get_handler example_runtime
     (snd (post_handler example_runtime [] Runs 0 ''alice'' (Some [''paris'' \<mapsto> JBool False])))
     None ''alice''
    \<noteq> (200, JObj [(''success'', JBool True),
         (''data'', JObj [(''paris'', JBool False), (''london'', JNull),
            (''updatedAt'', JStr ''1970-01-01T00:00:00.000Z'')])])"
proof -
  have a: "normalizeUserId ''alice'' = ''alice''" by code_simp
  show ?thesis
    by (simp add: get_handler_def post_handler_def a invalid_id_def select_upsert_same
        stringify_field_def parse_column_def nullable_def example_runtime_def Let_def)
qed

section \<open>Counting users\<close>

lemma post_status_200:
  "fst (fst (post_handler rt d res now raw body)) = 200
     \<longleftrightarrow> \<not> invalid_id (normalizeUserId raw) \<and> res = Runs
         \<and> (\<exists>b p l. body = Some b \<and> stringify_field rt (b ''paris'') = Some p
                \<and> stringify_field rt (b ''london'') = Some l)"
  by (auto simp: post_handler_def Let_def split: option.splits run_result.splits)

lemma serve_post_cases:
  "(fst (fst (serve rt d (PostSync raw body now, flt))) = 200
      \<and> (\<exists>b p l. body = Some b \<and> stringify_field rt (b ''paris'') = Some p
             \<and> stringify_field rt (b ''london'') = Some l
             \<and> snd (serve rt d (PostSync raw body now, flt))
                 = upsert_user (normalizeUserId raw)
                     \<lparr>paris_data = p, london_data = l,
                      updated_at = Some (toISOString rt now)\<rparr> d))
   \<or> (fst (fst (serve rt d (PostSync raw body now, flt))) \<noteq> 200
      \<and> snd (serve rt d (PostSync raw body now, flt)) = d)"
  by (auto simp: post_handler_def Let_def split: option.splits)

lemma keys_upsert: "fst ` set (upsert_user k r d) = insert k (fst ` set d)"
  by (simp add: upsert_user_def dom_update)

lemma distinct_upsert: "distinct (map fst d) \<Longrightarrow> distinct (map fst (upsert_user k r d))"
  by (simp add: upsert_user_def distinct_update)

lemma serve_keys:
  "fst ` set (snd (serve rt d ev)) = fst ` set d \<union> set (succeeded_ids rt d [ev])"
proof (cases ev)
  case (Pair req flt)
  show ?thesis
  proof (cases req)
    case (PostSync raw body now)
    let ?ev = "(PostSync raw body now, flt)"
    from serve_post_cases [of rt d raw body now flt]
    consider (ok) r where "fst (fst (serve rt d ?ev)) = 200"
        "snd (serve rt d ?ev) = upsert_user (normalizeUserId raw) r d"
      | (no) "fst (fst (serve rt d ?ev)) \<noteq> 200" "snd (serve rt d ?ev) = d"
      by blast
    then have "fst ` set (snd (serve rt d ?ev)) = fst ` set d \<union> set (succeeded_ids rt d [?ev])"
    proof cases
      case ok
      have "succeeded_ids rt d [?ev] = [normalizeUserId raw]"
        using ok(1) by (simp del: serve.simps)
      then show ?thesis
        by (simp only: ok(2) keys_upsert) simp
    next
      case no
      have "succeeded_ids rt d [?ev] = []"
        using no(1) by (simp del: serve.simps)
      then show ?thesis
        by (simp only: no(2)) simp
    qed
    then show ?thesis by (simp only: Pair PostSync)
  qed (simp_all add: Pair)
qed

lemma serve_distinct:
  "distinct (map fst d) \<Longrightarrow> distinct (map fst (snd (serve rt d ev)))"
proof (cases ev)
  case (Pair req flt)
  assume k: "distinct (map fst d)"
  show ?thesis
  proof (cases req)
    case (PostSync raw body now)
    from serve_post_cases [of rt d raw body now flt] k show ?thesis
      unfolding Pair PostSync by (auto simp: distinct_upsert simp del: serve.simps)
  qed (simp_all add: Pair k)
qed


lemma run_keys:
  "fst ` set (run rt d evs) = fst ` set d \<union> set (succeeded_ids rt d evs)"
proof (induction evs arbitrary: d)
  case Nil
  show ?case by simp
next
  case (Cons ev evs)
  have "fst ` set (run rt d (ev # evs))
          = fst ` set (snd (serve rt d ev)) \<union> set (succeeded_ids rt (snd (serve rt d ev)) evs)"
    using Cons.IH by simp
  also have "\<dots> = fst ` set d \<union> set (succeeded_ids rt d [ev])
                     \<union> set (succeeded_ids rt (snd (serve rt d ev)) evs)"
    by (simp only: serve_keys)
  also have "\<dots> = fst ` set d \<union> set (succeeded_ids rt d (ev # evs))"
    by (auto split: prod.splits request.splits)
  finally show ?case .
qed

lemma run_distinct: "distinct (map fst d) \<Longrightarrow> distinct (map fst (run rt d evs))"
  by (induction evs arbitrary: d) (simp_all add: serve_distinct)

lemma run_append: "run rt d (evs @ evs') = run rt (run rt d evs) evs'"
  by (induction evs arbitrary: d) simp_all

lemma succeeded_ids_append:
  "succeeded_ids rt d (evs @ evs')
     = succeeded_ids rt d evs @ succeeded_ids rt (run rt d evs) evs'"
  by (induction evs arbitrary: d) simp_all

lemma count_run: "count_users (run rt [] evs) = card (set (succeeded_ids rt [] evs))"
proof -
  have "distinct (map fst (run rt [] evs))"
    by (rule run_distinct) simp
  then have "length (map fst (run rt [] evs)) = card (set (map fst (run rt [] evs)))"
    by (simp only: distinct_card)
  then show ?thesis
    using run_keys [of rt "[]" evs] by (simp add: count_users_def)
qed

text \<open>
  C9. Starting from the empty table and after any sequence of requests, the statistics
  handler reports the number of distinct normalized identifiers for which a POST has been
  answered with success. A further POST that is answered with success raises the count by
  one when its identifier has not succeeded before and leaves it alone otherwise, and no
  request lowers the count.
\<close>

theorem userCount_counts_identifiers:
  "stats_handler (run rt [] evs) None
     = (200, JObj [(''userCount'',
          JNum (Finite (of_nat (card (set (succeeded_ids rt [] evs))))))])
   \<and> (\<forall>raw body now flt.
         fst (fst (serve rt (run rt [] evs) (PostSync raw body now, flt))) = 200 \<longrightarrow>
         count_users (run rt [] (evs @ [(PostSync raw body now, flt)]))
           = (if normalizeUserId raw \<in> set (succeeded_ids rt [] evs)
              then count_users (run rt [] evs)
              else count_users (run rt [] evs) + 1))
   \<and> (\<forall>ev. count_users (run rt [] evs) \<le> count_users (run rt [] (evs @ [ev])))"
proof (intro conjI allI impI)
  show "stats_handler (run rt [] evs) None
     = (200, JObj [(''userCount'',
          JNum (Finite (of_nat (card (set (succeeded_ids rt [] evs))))))])"
    by (simp add: stats_handler_def count_run)
next
  fix raw body now and flt :: fault
  let ?ev = "(PostSync raw body now, flt)"
  assume "fst (fst (serve rt (run rt [] evs) ?ev)) = 200"
  then have "succeeded_ids rt (run rt [] evs) [?ev] = [normalizeUserId raw]"
    by (simp del: serve.simps)
  then have "set (succeeded_ids rt [] (evs @ [?ev]))
               = insert (normalizeUserId raw) (set (succeeded_ids rt [] evs))"
    by (simp add: succeeded_ids_append del: succeeded_ids.simps)
  then show "count_users (run rt [] (evs @ [?ev]))
           = (if normalizeUserId raw \<in> set (succeeded_ids rt [] evs)
              then count_users (run rt [] evs)
              else count_users (run rt [] evs) + 1)"
    by (simp add: count_run insert_absorb)
next
  fix ev
  have "set (succeeded_ids rt [] evs) \<subseteq> set (succeeded_ids rt [] (evs @ [ev]))"
    by (simp add: succeeded_ids_append del: succeeded_ids.simps)
  then show "count_users (run rt [] evs) \<le> count_users (run rt [] (evs @ [ev]))"
    by (simp add: count_run card_mono)
qed

theorem userCount_counts_identifiers_witness:
  "stats_handler
     (run example_runtime []
        [(PostSync ''alice'' (Some [''paris'' \<mapsto> JArr [JStr ''soho'']]) 0, None),
         (PostSync ''Alice!'' (Some Map.empty) 1748779200000, None),
         (PostSync ''bob'' (Some Map.empty) 1748779200000, Some ''disk I/O error''),
         (PostSync ''x'' (Some Map.empty) 1748779200000, None),
         (PostSync ''erin'' None 1748779200000, None),
         (GetSync ''carol'', None),
         (PostSync ''carol'' (Some Map.empty) 1748779200000, None)])
     None
    = (200, JObj [(''userCount'', JNum (Finite 2))])
   \<and> fst (fst (serve example_runtime
        (run example_runtime []
          [(PostSync ''alice'' (Some [''paris'' \<mapsto> JArr [JStr ''soho'']]) 0, None),
           (PostSync ''Alice!'' (Some Map.empty) 1748779200000, None),
           (PostSync ''bob'' (Some Map.empty) 1748779200000, Some ''disk I/O error''),
           (PostSync ''x'' (Some Map.empty) 1748779200000, None),
           (PostSync ''erin'' None 1748779200000, None),
           (GetSync ''carol'', None),
           (PostSync ''carol'' (Some Map.empty) 1748779200000, None)])
        (PostSync ''dave'' (Some Map.empty) 1748779200000, None))) = 200
   \<and> count_users
       (run example_runtime []
          ([(PostSync ''alice'' (Some [''paris'' \<mapsto> JArr [JStr ''soho'']]) 0, None),
            (PostSync ''Alice!'' (Some Map.empty) 1748779200000, None),
            (PostSync ''bob'' (Some Map.empty) 1748779200000, Some ''disk I/O error''),
            (PostSync ''x'' (Some Map.empty) 1748779200000, None),
            (PostSync ''erin'' None 1748779200000, None),
            (GetSync ''carol'', None),
            (PostSync ''carol'' (Some Map.empty) 1748779200000, None)]
           @ [(PostSync ''dave'' (Some Map.empty) 1748779200000, None)]))
      = 3"
proof -
  let ?evs = "[(PostSync ''alice'' (Some [''paris'' \<mapsto> JArr [JStr ''soho'']]) 0, None),
         (PostSync ''Alice!'' (Some Map.empty) 1748779200000, None),
         (PostSync ''bob'' (Some Map.empty) 1748779200000, Some ''disk I/O error''),
         (PostSync ''x'' (Some Map.empty) 1748779200000, None),
         (PostSync ''erin'' None 1748779200000, None),
         (GetSync ''carol'', None),
         (PostSync ''carol'' (Some Map.empty) 1748779200000, None)]"
  let ?ev = "(PostSync ''dave'' (Some Map.empty) 1748779200000, None :: fault)"
  have k: "normalizeUserId ''alice'' = ''alice''" "normalizeUserId ''Alice!'' = ''alice''"
    "normalizeUserId ''bob'' = ''bob''" "normalizeUserId ''x'' = ''x''"
    "normalizeUserId ''carol'' = ''carol''" "normalizeUserId ''erin'' = ''erin''"
    "normalizeUserId ''dave'' = ''dave''"
    by code_simp+
  have sf: "stringify_field example_runtime None = Some None"
    "stringify_field example_runtime (Some (JArr [JStr ''soho''])) = Some (Some ''[\"soho\"]'')"
    by (simp_all add: stringify_field_def example_runtime_def)
  have i: "succeeded_ids example_runtime [] ?evs = [''alice'', ''alice'', ''carol'']"
    by (simp add: post_status_200 k invalid_id_def sf)
  have c: "card (set [''alice'', ''alice'', ''carol'']) = 2"
    by simp
  have v: "fst (fst (serve example_runtime (run example_runtime [] ?evs) ?ev)) = 200"
    by (simp only: serve.simps post_status_200) (simp add: k invalid_id_def sf)
  have n: "normalizeUserId ''dave'' \<notin> set [''alice'', ''alice'', ''carol'']"
    by (simp add: k)
  note th = userCount_counts_identifiers [of example_runtime ?evs]
  from th have 1: "stats_handler (run example_runtime [] ?evs) None
     = (200, JObj [(''userCount'', JNum (Finite 2))])"
    unfolding i c by simp
  from th have "count_users (run example_runtime [] ?evs) = 2"
    unfolding i c by (simp add: stats_handler_def)
  moreover from th v n
  have "count_users (run example_runtime [] (?evs @ [?ev]))
          = count_users (run example_runtime [] ?evs) + 1"
    unfolding i by (simp del: serve.simps run.simps)
  ultimately have 2: "count_users (run example_runtime [] (?evs @ [?ev])) = 3"
    by simp
  from 1 v 2 show ?thesis by blast
qed

section \<open>Stored columns always parse\<close>

lemma set_upsert: "set (upsert_user k r d) \<subseteq> insert (k, r) (set d)"
  unfolding upsert_user_def by (induction d) auto

lemma serialized_from_mono:
  "serialized_from rt vs col \<Longrightarrow> set vs \<subseteq> set vs' \<Longrightarrow> serialized_from rt vs' col"
  by (auto simp: serialized_from_def split: option.splits)

lemma rows_serialized_from_mono:
  "rows_serialized_from rt vs d \<Longrightarrow> set vs \<subseteq> set vs' \<Longrightarrow> rows_serialized_from rt vs' d"
  unfolding rows_serialized_from_def by (blast intro: serialized_from_mono)

lemma stringify_field_cases:
  "stringify_field rt f = Some col \<Longrightarrow>
     col = None \<or> (\<exists>v. f = Some v \<and> truthy v \<and> JSON_stringify rt v = col)"
  by (cases f) (auto simp: stringify_field_def split: if_splits option.splits)

lemma stringify_field_serialized:
  assumes "stringify_field rt f = Some col" and "\<And>v. f = Some v \<Longrightarrow> v \<in> set vs"
  shows "serialized_from rt vs col"
proof (cases col)
  case None
  then show ?thesis by (simp add: serialized_from_def)
next
  case (Some s)
  with stringify_field_cases [OF assms(1)] obtain v
    where "f = Some v" "truthy v" "JSON_stringify rt v = Some s"
    by auto
  with assms(2) have "Some s \<in> JSON_stringify rt ` {v \<in> set vs. truthy v}"
    by force
  with Some show ?thesis by (simp add: serialized_from_def)
qed

lemma rows_serialized_from_upsert:
  assumes "rows_serialized_from rt vs d"
    and "serialized_from rt vs (paris_data r)" and "serialized_from rt vs (london_data r)"
  shows "rows_serialized_from rt vs (upsert_user k r d)"
  using assms set_upsert [of k r d] unfolding rows_serialized_from_def by blast

lemma serve_serialized:
  assumes "rows_serialized_from rt vs d"
  shows "rows_serialized_from rt (vs @ submitted_values [ev]) (snd (serve rt d ev))"
proof (cases ev)
  case (Pair req flt)
  show ?thesis
  proof (cases req)
    case (PostSync raw body now)
    let ?ev = "(PostSync raw body now, flt)"
    let ?vs = "vs @ body_values body"
    have e: "submitted_values [ev] = body_values body"
      by (simp add: Pair PostSync)
    have d: "rows_serialized_from rt ?vs d"
      using assms by (rule rows_serialized_from_mono) simp
    from serve_post_cases [of rt d raw body now flt]
    consider (ok) b p l where "body = Some b" "stringify_field rt (b ''paris'') = Some p"
        "stringify_field rt (b ''london'') = Some l"
        "snd (serve rt d ?ev) = upsert_user (normalizeUserId raw)
           \<lparr>paris_data = p, london_data = l, updated_at = Some (toISOString rt now)\<rparr> d"
      | (no) "snd (serve rt d ?ev) = d"
      by blast
    then have "rows_serialized_from rt ?vs (snd (serve rt d ?ev))"
    proof cases
      case ok
      have p: "serialized_from rt ?vs p"
        using ok(2) by (rule stringify_field_serialized) (simp add: ok(1) body_values_def)
      have l: "serialized_from rt ?vs l"
        using ok(3) by (rule stringify_field_serialized) (simp add: ok(1) body_values_def)
      show ?thesis
        using d p l by (simp only: ok(4)) (simp add: rows_serialized_from_upsert)
    next
      case no
      with d show ?thesis by (simp only: no)
    qed
    then show ?thesis using e by (simp only: Pair PostSync)
  next
    case (GetSync raw)
    with Pair assms show ?thesis by simp
  next
    case GetStats
    with Pair assms show ?thesis by simp
  qed
qed

lemma submitted_values_append:
  "submitted_values (evs @ evs') = submitted_values evs @ submitted_values evs'"
  by (induction evs) simp_all

lemma run_serialized:
  "rows_serialized_from rt vs d
     \<Longrightarrow> rows_serialized_from rt (vs @ submitted_values evs) (run rt d evs)"
proof (induction evs arbitrary: d vs)
  case Nil
  then show ?case by simp
next
  case (Cons ev evs)
  from Cons.prems have "rows_serialized_from rt (vs @ submitted_values [ev]) (snd (serve rt d ev))"
    by (rule serve_serialized)
  then have "rows_serialized_from rt ((vs @ submitted_values [ev]) @ submitted_values evs)
               (run rt (snd (serve rt d ev)) evs)"
    by (rule Cons.IH)
  moreover have "(vs @ submitted_values [ev]) @ submitted_values evs
                   = vs @ submitted_values (ev # evs)"
    using submitted_values_append [of "[ev]" evs] by simp
  ultimately show ?case by simp
qed

lemma parse_serialized:
  assumes "serialized_from rt vs col"
    and "\<forall>v \<in> set vs. truthy v \<longrightarrow>
           (\<forall>s. JSON_stringify rt v = Some s \<longrightarrow> JSON_parse rt s \<noteq> None)"
  shows "parse_column rt col \<noteq> None"
proof (cases col)
  case None
  then show ?thesis by (simp add: parse_column_def)
next
  case (Some s)
  with assms(1) obtain v where "v \<in> set vs" "truthy v" "JSON_stringify rt v = Some s"
    by (auto simp: serialized_from_def)
  with assms(2) have "JSON_parse rt s \<noteq> None" by blast
  with Some show ?thesis by (simp add: parse_column_def)
qed

lemma get_not_500:
  assumes "rows_serialized_from rt vs d"
    and "\<forall>v \<in> set vs. truthy v \<longrightarrow>
           (\<forall>s. JSON_stringify rt v = Some s \<longrightarrow> JSON_parse rt s \<noteq> None)"
  shows "fst (get_handler rt d None raw) \<noteq> 500"
proof (cases "select_user d (normalizeUserId raw)")
  case None
  then show ?thesis by (simp add: get_handler_def Let_def)
next
  case (Some r)
  then have "(normalizeUserId raw, r) \<in> set d"
    by (simp add: select_user_def map_of_SomeD)
  with assms(1) have "serialized_from rt vs (paris_data r)" "serialized_from rt vs (london_data r)"
    unfolding rows_serialized_from_def by blast+
  with assms(2) obtain p l where "parse_column rt (paris_data r) = Some p"
    "parse_column rt (london_data r) = Some l"
    using parse_serialized by blast
  with Some show ?thesis by (simp add: get_handler_def Let_def)
qed

text \<open>
  C10. A column written by the POST handler is null or the serialization of the value
  submitted for it. Starting from the empty table, after any sequence of requests every
  column is null or the serialization of a truthy value submitted by one of the POST
  requests. So, when the runtime's \<^verbatim>\<open>JSON.parse\<close> accepts what its
  \<^verbatim>\<open>JSON.stringify\<close> produced for these values, the GET handler reaches its error
  branch on such a table only when the driver throws, never through a failed parse.
\<close>

theorem get_never_fails_to_parse:
  assumes "\<forall>v \<in> set (submitted_values evs). truthy v \<longrightarrow>
             (\<forall>s. JSON_stringify rt v = Some s \<longrightarrow> JSON_parse rt s \<noteq> None)"
  shows "(\<forall>f col. stringify_field rt f = Some col \<longrightarrow>
             col = None \<or> (\<exists>v. f = Some v \<and> JSON_stringify rt v = col))
       \<and> rows_serialized_from rt (submitted_values evs) (run rt [] evs)
       \<and> (\<forall>raw flt. fst (get_handler rt (run rt [] evs) flt raw) = 500 \<longrightarrow> flt \<noteq> None)"
proof (intro conjI allI impI)
  fix f col
  assume "stringify_field rt f = Some col"
  from stringify_field_cases [OF this]
  show "col = None \<or> (\<exists>v. f = Some v \<and> JSON_stringify rt v = col)"
    by blast
next
  have "rows_serialized_from rt [] []"
    by (simp add: rows_serialized_from_def)
  then have "rows_serialized_from rt ([] @ submitted_values evs) (run rt [] evs)"
    by (rule run_serialized)
  then show inv: "rows_serialized_from rt (submitted_values evs) (run rt [] evs)"
    by simp
  fix raw flt
  assume "fst (get_handler rt (run rt [] evs) flt raw) = 500"
  moreover from inv assms have "fst (get_handler rt (run rt [] evs) None raw) \<noteq> 500"
    by (rule get_not_500)
  ultimately show "flt \<noteq> None" by (cases flt) auto
qed


theorem get_never_fails_to_parse_witness:
  \<open>submitted_values
     [(PostSync ''alice'' (Some [''paris'' \<mapsto> JObj [(''day1'', JStr ''louvre'')],
                                 ''london'' \<mapsto> JNum (Finite 0)]) 0, None),
      (PostSync ''bob'' (Some [''london'' \<mapsto> JArr [JStr ''soho'']]) 1748779200000, None)]
     = [JObj [(''day1'', JStr ''louvre'')], JNum (Finite 0), JArr [JStr ''soho'']]
   \<and> JSON_stringify example_runtime (JObj [(''day1'', JStr ''louvre'')])
       = Some ''{"day1":"louvre"}''
   \<and> JSON_parse example_runtime ''{"day1":"louvre"}'' \<noteq> None
   \<and> \<not> truthy (JNum (Finite 0))
   \<and> JSON_stringify example_runtime (JArr [JStr ''soho'']) = Some ''["soho"]''
   \<and> JSON_parse example_runtime ''["soho"]'' \<noteq> None
   \<and> rows_serialized_from example_runtime
        [JObj [(''day1'', JStr ''louvre'')], JNum (Finite 0), JArr [JStr ''soho'']]
        (run example_runtime []
          [(PostSync ''alice'' (Some [''paris'' \<mapsto> JObj [(''day1'', JStr ''louvre'')],
                                      ''london'' \<mapsto> JNum (Finite 0)]) 0, None),
           (PostSync ''bob'' (Some [''london'' \<mapsto> JArr [JStr ''soho'']]) 1748779200000,
            None)])
   \<and> fst (get_handler example_runtime
        (run example_runtime []
          [(PostSync ''alice'' (Some [''paris'' \<mapsto> JObj [(''day1'', JStr ''louvre'')],
                                      ''london'' \<mapsto> JNum (Finite 0)]) 0, None),
           (PostSync ''bob'' (Some [''london'' \<mapsto> JArr [JStr ''soho'']]) 1748779200000,
            None)])
        None ''alice'') \<noteq> 500\<close>
proof -
  let ?evs = "[(PostSync ''alice'' (Some [''paris'' \<mapsto> JObj [(''day1'', JStr ''louvre'')],
                                 ''london'' \<mapsto> JNum (Finite 0)]) 0, None),
      (PostSync ''bob'' (Some [''london'' \<mapsto> JArr [JStr ''soho'']]) 1748779200000, None)]"
  have s: "submitted_values ?evs
             = [JObj [(''day1'', JStr ''louvre'')], JNum (Finite 0), JArr [JStr ''soho'']]"
    by (simp add: body_values_def)
  have 1: "JSON_stringify example_runtime (JObj [(''day1'', JStr ''louvre'')])
             = Some ''{\"day1\":\"louvre\"}''"
    by (simp add: example_runtime_def)
  have 2: "JSON_parse example_runtime ''{\"day1\":\"louvre\"}'' \<noteq> None"
    by (simp add: example_runtime_def)
  have 3: "\<not> truthy (JNum (Finite 0))" by simp
  have 4: "JSON_stringify example_runtime (JArr [JStr ''soho'']) = Some ''[\"soho\"]''"
    by (simp add: example_runtime_def)
  have 5: "JSON_parse example_runtime ''[\"soho\"]'' \<noteq> None"
    by (simp add: example_runtime_def)
  have h: "\<forall>v \<in> set (submitted_values ?evs). truthy v \<longrightarrow>
             (\<forall>s. JSON_stringify example_runtime v = Some s \<longrightarrow>
                  JSON_parse example_runtime s \<noteq> None)"
    unfolding s using 1 2 3 4 5 by simp
  from get_never_fails_to_parse [OF h]
  have "rows_serialized_from example_runtime (submitted_values ?evs)
          (run example_runtime [] ?evs)
      \<and> fst (get_handler example_runtime (run example_runtime [] ?evs) None ''alice'') \<noteq> 500"
    by blast
  with s 1 2 3 4 5 show ?thesis by (simp only:) blast
qed

end
